theory Spec2Isabelle
  imports Main
begin

section \<open>Values, records and errors\<close>

text \<open>
  The gateway exists in two variants: \<^verbatim>\<open>src/index.js\<close> keeps a user's services in
  the user's metadata at the identity service, \<^verbatim>\<open>src/unnamed/part_000\<close> keeps
  one Redis entry per service. Both are embedded here, function by function.

  JavaScript values, as far as the handlers read and write them. \<open>JUndefined\<close> is the
  value of a missing property; \<open>JNum\<close> carries an integer, which is all the code
  ever needs of a number (it only asks \<^verbatim>\<open>typeof\<close> and truthiness).
\<close>

datatype jsval =
    JUndefined
  | JNull
  | JBool bool
  | JNum int
  | JStr string
  | JArr "jsval list"
  | JObj "(string \<times> jsval) list"

text \<open>What a rejected promise or a \<^verbatim>\<open>throw\<close> carries.\<close>

datatype error =
    TypeError
  | ReferenceError
  | Thrown string

text \<open>A stored service: \<^verbatim>\<open>{name, type, data}\<close>.\<close>

record service =
  name :: string
  type :: string
  data :: jsval

text \<open>
  The \<^verbatim>\<open>services\<close> field of a user's metadata: missing, \<^verbatim>\<open>null\<close>, a
  boolean, a number, a string, or an array of services. Only a number is a corruption
  \<^verbatim>\<open>getServices\<close> repairs.
\<close>

datatype services_field =
    SUndefined
  | SNull
  | SBool bool
  | SNumber int
  | SString string
  | SArray "service list"

text \<open>
  \<^verbatim>\<open>req.session?.getUserId()\<close>: the user id, or \<^verbatim>\<open>undefined\<close> (\<open>None\<close>)
  when the request carries no session.
\<close>

type_synonym userId = "string option"

section \<open>The metadata service\<close>

text \<open>
  The identity service keeps one metadata object per user id; only its
  \<^verbatim>\<open>services\<close> field is read or written by the gateway. \<open>writes\<close> logs every
  \<^verbatim>\<open>updateUserMetadata\<close> call in the order the calls are issued, and the service is
  taken to answer every call. A call the code awaits has taken effect when the code goes
  on. The repair in \<^verbatim>\<open>getServices\<close> is a write the code does not await: the read
  issued right after it may be answered before the write is applied. \<open>stale_reread\<close>
  says which of the two this service does: when it holds, that read is answered from the
  metadata as it was before the write. Either way the write has been applied when
  \<^verbatim>\<open>getServices\<close> hands its result to its caller.
  The service is asked about whatever id the handler holds, \<^verbatim>\<open>undefined\<close>
  included (a request without a session, when none is required): the model keeps a
  metadata object for it as for any other id.
\<close>

record mstate =
  metadata :: "userId \<Rightarrow> services_field"
  writes :: "(userId \<times> services_field) list"
  stale_reread :: bool

definition getUserMetadata :: "userId \<Rightarrow> mstate \<Rightarrow> services_field" where
  "getUserMetadata userId st = metadata st userId"

definition updateUserMetadata :: "userId \<Rightarrow> services_field \<Rightarrow> mstate \<Rightarrow> mstate" where
  "updateUserMetadata userId services st =
     st\<lparr>metadata := (metadata st)(userId := services),
        writes := writes st @ [(userId, services)]\<rparr>"

section \<open>The credential store of \<^verbatim>\<open>index.js\<close>\<close>

text \<open>
  \<^verbatim>\<open>getServices\<close> (lines 201-212). For a number (\<^verbatim>\<open>typeof\<close> is
  \<^verbatim>\<open>"number"\<close>) the write of the empty array is issued, not awaited, and the
  metadata is read again: the result is what that second read returns, the empty array
  or, from a stale read, the number still. Anything else is returned as stored.
\<close>

definition getServices :: "userId \<Rightarrow> mstate \<Rightarrow> services_field \<times> mstate" where
  "getServices userId st =
     (case getUserMetadata userId st of
        SNumber n \<Rightarrow>
          (let st' = updateUserMetadata userId (SArray []) st
           in (if stale_reread st then getUserMetadata userId st
               else getUserMetadata userId st', st'))
      | services \<Rightarrow> (services, st))"

text \<open>
  \<^verbatim>\<open>getServiceData\<close> (lines 193-199). The name looked up is a string or
  \<^verbatim>\<open>undefined\<close> (a header that is not there); \<^verbatim>\<open>x.name == name\<close> is then
  false for every stored name. \<open>None\<close> is the falsy result: \<^verbatim>\<open>null\<close> when
  there is no collection, \<^verbatim>\<open>undefined\<close> when \<^verbatim>\<open>find\<close> finds nothing; the
  callers only test it for truthiness or dereference it. \<^verbatim>\<open>!services\<close> holds
  for \<^verbatim>\<open>undefined\<close>, \<^verbatim>\<open>null\<close>, \<^verbatim>\<open>false\<close>, zero and the empty
  string; any other value that is not an array has no \<^verbatim>\<open>find\<close>, and calling it
  throws.
\<close>

fun falsy :: "services_field \<Rightarrow> bool" where
  "falsy SUndefined = True"
| "falsy SNull = True"
| "falsy (SBool b) = (\<not> b)"
| "falsy (SNumber n) = (n = 0)"
| "falsy (SString s) = (s = [])"
| "falsy (SArray xs) = False"

definition getServiceData ::
  "userId \<Rightarrow> string option \<Rightarrow> mstate \<Rightarrow> (error + service option) \<times> mstate" where
  "getServiceData userId nm st =
     (let (services, st') = getServices userId st
      in if falsy services then (Inr None, st')
         else case services of
                SArray xs \<Rightarrow> (Inr (find (\<lambda>x. Some (name x) = nm) xs), st')
              | _ \<Rightarrow> (Inl TypeError, st'))"

text \<open>
  Lines 176-180. \<^verbatim>\<open>!services?.length\<close> holds for a missing collection, for
  \<^verbatim>\<open>null\<close>, for a boolean or a number (their \<^verbatim>\<open>length\<close> is undefined), for
  the empty string and for the empty array; then the collection starts from
  \<^verbatim>\<open>[]\<close>. A string that is not empty stays, and has no \<^verbatim>\<open>push\<close>.
\<close>

fun or_empty :: "services_field \<Rightarrow> error + service list" where
  "or_empty (SArray xs) = Inr xs"
| "or_empty (SString s) = (if s = [] then Inr [] else Inl TypeError)"
| "or_empty _ = Inr []"

text \<open>\<^verbatim>\<open>addService\<close> (lines 167-184).\<close>

definition addService ::
  "userId \<Rightarrow> string \<Rightarrow> string \<Rightarrow> jsval \<Rightarrow> mstate \<Rightarrow> (error + unit) \<times> mstate" where
  "addService userId nm ty d st =
     (let (services, st1) = getServices userId st;
          (existingService, st2) = getServiceData userId (Some nm) st1
      in case existingService of
           Inl e \<Rightarrow> (Inl e, st2)
         | Inr (Some x) \<Rightarrow> (Inl (Thrown ''Trying to add a service which already exists''), st2)
         | Inr None \<Rightarrow>
             (case or_empty services of
                Inl e \<Rightarrow> (Inl e, st2)
              | Inr xs \<Rightarrow>
                  (Inr (),
                   updateUserMetadata userId
                     (SArray (xs @ [\<lparr>name = nm, type = ty, data = d\<rparr>])) st2)))"

text \<open>\<^verbatim>\<open>findIndex\<close> of an array: the first index that satisfies, or \<open>-1\<close>.\<close>

fun findIndex :: "('a \<Rightarrow> bool) \<Rightarrow> 'a list \<Rightarrow> int" where
  "findIndex P [] = - 1"
| "findIndex P (x # xs) =
     (if P x then 0
      else (let i = findIndex P xs in if i < 0 then - 1 else i + 1))"

text \<open>
  \<^verbatim>\<open>editService\<close> (lines 186-191). \<^verbatim>\<open>services.findIndex\<close> throws on
  anything that is not an array; \<^verbatim>\<open>services[-1]\<close> is \<^verbatim>\<open>undefined\<close>, and
  assigning its \<^verbatim>\<open>data\<close> throws before anything is written.
\<close>

definition editService ::
  "userId \<Rightarrow> string \<Rightarrow> jsval \<Rightarrow> mstate \<Rightarrow> (error + unit) \<times> mstate" where
  "editService userId nm d st =
     (let (services, st1) = getServices userId st
      in case services of
           SArray xs \<Rightarrow>
             (let serviceIndex = findIndex (\<lambda>x. name x = nm) xs
              in if 0 \<le> serviceIndex \<and> serviceIndex < int (length xs)
                 then (Inr (),
                       updateUserMetadata userId
                         (SArray (xs[nat serviceIndex := (xs ! nat serviceIndex)\<lparr>data := d\<rparr>]))
                         st1)
                 else (Inl TypeError, st1))
         | _ \<Rightarrow> (Inl TypeError, st1))"

section \<open>The sign-in interceptor of \<^verbatim>\<open>index.js\<close>\<close>

text \<open>
  What the wrapped \<^verbatim>\<open>thirdPartySignInUpPOST\<close> resolves to, as far as the override
  reads it: \<^verbatim>\<open>status\<close>, \<^verbatim>\<open>user.id\<close> and \<^verbatim>\<open>authCodeResponse\<close>.
\<close>

record signin =
  status :: string
  user_id :: string
  authCodeResponse :: jsval

text \<open>
  The override (lines 72-95). Its argument is the wrapped implementation's outcome:
  \<open>None\<close> when the implementation has no such method, \<open>Some (Inl e)\<close> when the call
  throws (the error is logged, \<^verbatim>\<open>response\<close> stays undefined and reading its
  \<^verbatim>\<open>status\<close> throws), \<open>Some (Inr response)\<close> otherwise.
\<close>

definition thirdPartySignInUpPOST ::
  "(error + signin) option \<Rightarrow> mstate \<Rightarrow> (error + signin) \<times> mstate" where
  "thirdPartySignInUpPOST original st =
     (case original of
        None \<Rightarrow> (Inl (Thrown ''Should never come here''), st)
      | Some (Inl e) \<Rightarrow> (Inl TypeError, st)
      | Some (Inr response) \<Rightarrow>
          if status response = ''OK'' then
            (let (googleServiceData, st1) =
                   getServiceData (Some (user_id response)) (Some ''Google Drive'') st
             in case googleServiceData of
                  Inl e \<Rightarrow> (Inl e, st1)
                | Inr None \<Rightarrow>
                    (let (r, st2) =
                           addService (Some (user_id response)) ''Google Drive'' ''GoogleDrive''
                             (authCodeResponse response) st1
                     in case r of Inl e \<Rightarrow> (Inl e, st2) | Inr _ \<Rightarrow> (Inr response, st2))
                | Inr (Some x) \<Rightarrow>
                    (let (r, st2) =
                           editService (Some (user_id response)) ''Google Drive''
                             (authCodeResponse response) st1
                     in case r of Inl e \<Rightarrow> (Inl e, st2) | Inr _ \<Rightarrow> (Inr response, st2)))
          else (Inr response, st))"

section \<open>Requests, replies and the session gate\<close>

text \<open>
  The request methods that reach a route: the \<^verbatim>\<open>cors\<close> middleware, mounted before
  the routes, answers every \<^verbatim>\<open>OPTIONS\<close> request itself.
\<close>

datatype http_method = GET | HEAD | PUT | POST | DELETE | PATCH

text \<open>
  A request, as far as the \<^verbatim>\<open>/api/*\<close> routes read it: \<open>verb\<close> is
  \<^verbatim>\<open>req.method\<close>, \<open>sess\<close> is the user id of the valid session the request
  carries, if it carries one, \<open>headers\<close> gives the value of a header that is there.
  The JSON body of a \<^verbatim>\<open>PUT\<close> is taken to be well formed: \<^verbatim>\<open>name\<close> and
  \<^verbatim>\<open>type\<close> are strings.
\<close>

record request =
  verb :: http_method
  sess :: "string option"
  headers :: "string \<Rightarrow> string option"
  body_name :: string
  body_type :: string
  body_data :: jsval

text \<open>
  What a route does with a request:
  \<^item> \<open>Unauthorized\<close>: the session gate answered 401 and the handler did not run;
  \<^item> \<open>Json v\<close>: \<^verbatim>\<open>res.json(v)\<close>, status 200 (for \<open>v = JUndefined\<close> there is no
    JSON text to send);
  \<^item> \<open>Status n\<close>: \<^verbatim>\<open>res.status(n).end()\<close>, an empty body;
  \<^item> \<open>Forwarded u d\<close>: \<^verbatim>\<open>apiProxy.web\<close> sent the request upstream, with the
    header \<^verbatim>\<open>authenticated-user\<close> set to \<open>u\<close> and \<^verbatim>\<open>provider-credentials\<close> set
    to the JSON text of \<open>d\<close>;
  \<^item> \<open>Rejected e\<close>: the handler's promise was rejected with \<open>e\<close> outside any
    \<^verbatim>\<open>try\<close>, and nothing was written to the response;
  \<^item> \<open>NoReply\<close>: the handler returned without writing to the response.
\<close>

datatype reply =
    Unauthorized
  | Json jsval
  | Status nat
  | Forwarded string jsval
  | Rejected error
  | NoReply

text \<open>\<^verbatim>\<open>process.env.DISABLE_AUTH !== "true"\<close>.\<close>

definition sessionRequired :: "string option \<Rightarrow> bool" where
  "sessionRequired DISABLE_AUTH = (DISABLE_AUTH \<noteq> Some ''true'')"

datatype gate = Next | Unauthorised

text \<open>
  Modelled from the spec: \<^verbatim>\<open>verifySession\<close> is the session middleware of the
  supertokens-node library, which is not among the sources. Section 4.3: if a session is
  required and absent or invalid, the gate short-circuits with an unauthorized response
  and the route handler never runs; otherwise the handler runs, with the session attached
  to the request when there is one.
\<close>

definition verifySession :: "bool \<Rightarrow> string option \<Rightarrow> gate" where
  "verifySession required s = (if required \<and> s = None then Unauthorised else Next)"

text \<open>\<^verbatim>\<open>userId || "My-username"\<close>: the empty string is falsy too.\<close>

fun authenticated_user :: "userId \<Rightarrow> string" where
  "authenticated_user None = ''My-username''"
| "authenticated_user (Some u) = (if u = [] then ''My-username'' else u)"

text \<open>
  \<^verbatim>\<open>apiProxy.web\<close> opens the upstream request with the headers of \<^verbatim>\<open>req\<close>, and
  Node throws there, before anything is sent, on a header whose value is
  \<^verbatim>\<open>undefined\<close> or holds a character other than a tab, \<open>0x20\<close> to \<open>0x7e\<close> and
  \<open>0x80\<close> to \<open>0xff\<close>. A \<open>char\<close> is a code unit below 256, so the strings of this
  theory have no code unit beyond \<open>0xff\<close>.
\<close>

definition header_ok :: "string \<Rightarrow> bool" where
  "header_ok s = (\<forall>c \<in> set s. c = CHR 0x09 \<or> (32 \<le> (of_char c :: nat) \<and> c \<noteq> CHR 0x7F))"

text \<open>
  The text \<^verbatim>\<open>JSON.stringify\<close> gives for a value that is not \<^verbatim>\<open>undefined\<close>
  is made of ASCII punctuation, digits and literals and of the characters of the strings
  it writes (property names and string values), the quote, the backslash and the
  characters below \<open>0x20\<close> escaped. So it is a legal header value unless one of those
  strings holds \<open>0x7f\<close>. A property whose value is \<^verbatim>\<open>undefined\<close> is left out,
  name and all; in an array \<^verbatim>\<open>undefined\<close> is written \<^verbatim>\<open>null\<close>.
\<close>

fun json_text_legal :: "jsval \<Rightarrow> bool" where
  "json_text_legal (JStr s) = (CHR 0x7F \<notin> set s)"
| "json_text_legal (JArr vs) = (\<forall>v \<in> set vs. json_text_legal v)"
| "json_text_legal (JObj kvs) =
     ((\<forall>p \<in> set kvs. snd p \<noteq> JUndefined \<longrightarrow> CHR 0x7F \<notin> set (fst p))
      \<and> (\<forall>v \<in> snd ` set kvs. json_text_legal v))"
| "json_text_legal _ = True"

text \<open>
  \<^verbatim>\<open>JSON.stringify(undefined)\<close> is \<^verbatim>\<open>undefined\<close>: no header value at all.
\<close>

definition credentials_ok :: "jsval \<Rightarrow> bool" where
  "credentials_ok d = (d \<noteq> JUndefined \<and> json_text_legal d)"

section \<open>The \<^verbatim>\<open>/api/*\<close> routes of \<^verbatim>\<open>index.js\<close>\<close>

text \<open>
  \<^verbatim>\<open>GET /api/*\<close> (lines 148-155). \<^verbatim>\<open>services?.map(...)\<close> is
  \<^verbatim>\<open>undefined\<close> for a missing collection and for \<^verbatim>\<open>null\<close>; a boolean, a
  number and a string have no \<^verbatim>\<open>map\<close>, and calling it throws.
\<close>

definition name_type :: "service \<Rightarrow> jsval" where
  "name_type x = JObj [(''name'', JStr (name x)), (''type'', JStr (type x))]"

definition get_api :: "request \<Rightarrow> mstate \<Rightarrow> reply \<times> mstate" where
  "get_api req st =
     (let userId = sess req;
          (services, st') = getServices userId st
      in case services of
           SUndefined \<Rightarrow> (Json JUndefined, st')
         | SNull \<Rightarrow> (Json JUndefined, st')
         | SArray xs \<Rightarrow> (Json (JArr (map name_type xs)), st')
         | _ \<Rightarrow> (Rejected TypeError, st'))"

text \<open>
  The identifiers in scope, for the one place where the code reads an identifier it does
  not declare. \<open>Val v\<close> is a binding to a value read from the request, \<open>Opaque\<close> a
  binding to a function, a library object or configuration.
\<close>

datatype binding = Val jsval | Opaque

text \<open>The top-level declarations of \<^verbatim>\<open>index.js\<close>, in source order.\<close>

definition module_scope :: "(string \<times> binding) list" where
  "module_scope = map (\<lambda>x. (x, Opaque))
     [''express'', ''cors'', ''helmet'', ''httpProxy'', ''multer'', ''fetch'',
      ''supertokens'', ''Session'', ''UserMetadata'', ''verifySession'', ''middleware'',
      ''errorHandler'', ''ThirdPartyEmailPassword'', ''apiProxy'', ''apiPort'',
      ''apiDomain'', ''websiteDomain'', ''jonctionfsUri'', ''google'', ''storage'',
      ''upload'', ''app'', ''addService'', ''editService'', ''getServiceData'',
      ''getServices'']"

text \<open>
  Inside the \<^verbatim>\<open>PUT\<close> handler (lines 157-165): its two parameters, its three
  constants, then the module.
\<close>

definition put_scope :: "request \<Rightarrow> (string \<times> binding) list" where
  "put_scope req =
     [(''req'', Opaque), (''res'', Opaque),
      (''name'', Val (JStr (body_name req))),
      (''type'', Val (JStr (body_type req))),
      (''data'', Val (body_data req))] @ module_scope"

text \<open>
  Reading an identifier: its binding, or a \<^verbatim>\<open>ReferenceError\<close> when nothing
  declares it (Node's global object has no such property either).
\<close>

definition resolve :: "(string \<times> binding) list \<Rightarrow> string \<Rightarrow> error + binding" where
  "resolve scope x = (case map_of scope x of None \<Rightarrow> Inl ReferenceError | Some b \<Rightarrow> Inr b)"

fun as_userId :: "binding \<Rightarrow> userId" where
  "as_userId (Val (JStr s)) = Some s"
| "as_userId _ = None"

text \<open>
  \<^verbatim>\<open>PUT /api/*\<close> (lines 157-165). The arguments of \<^verbatim>\<open>addService\<close> are evaluated
  before the call, \<^verbatim>\<open>userId\<close> first. The call is not awaited: were it made, the
  handler would answer 201 whatever it did.
\<close>

definition put_api :: "request \<Rightarrow> mstate \<Rightarrow> reply \<times> mstate" where
  "put_api req st =
     (case resolve (put_scope req) ''userId'' of
        Inl e \<Rightarrow> (Rejected e, st)
      | Inr b \<Rightarrow>
          (let (r, st') = addService (as_userId b) (body_name req) (body_type req) (body_data req) st
           in (Status 201, st')))"

text \<open>
  The catch-all \<^verbatim>\<open>app.all("/api/*")\<close> (lines 214-229). Reading \<^verbatim>\<open>data\<close> of
  a falsy \<^verbatim>\<open>providerInfo\<close> throws, and so does \<^verbatim>\<open>apiProxy.web\<close> on a header
  it cannot send; every throw is caught and answered with 500.
\<close>

definition all_api :: "request \<Rightarrow> mstate \<Rightarrow> reply \<times> mstate" where
  "all_api req st =
     (let userId = sess req;
          providerId = headers req ''provider-id'';
          (providerInfo, st') = getServiceData userId providerId st
      in case providerInfo of
           Inl e \<Rightarrow> (Status 500, st')
         | Inr None \<Rightarrow> (Status 500, st')
         | Inr (Some x) \<Rightarrow>
             (if header_ok (authenticated_user userId) \<and> credentials_ok (data x)
              then (Forwarded (authenticated_user userId) (data x), st')
              else (Status 500, st')))"

text \<open>
  The three routes behind the gate. Express tries them in the order they are registered:
  \<^verbatim>\<open>GET\<close>, \<^verbatim>\<open>PUT\<close>, then the catch-all; none of the handlers passes the
  request on. A route registered with \<^verbatim>\<open>app.get\<close> also takes the \<^verbatim>\<open>HEAD\<close>
  requests of its path.
\<close>

definition api_route :: "string option \<Rightarrow> request \<Rightarrow> mstate \<Rightarrow> reply \<times> mstate" where
  "api_route DISABLE_AUTH req st =
     (case verifySession (sessionRequired DISABLE_AUTH) (sess req) of
        Unauthorised \<Rightarrow> (Unauthorized, st)
      | Next \<Rightarrow>
          (case verb req of
             GET \<Rightarrow> get_api req st
           | HEAD \<Rightarrow> get_api req st
           | PUT \<Rightarrow> put_api req st
           | _ \<Rightarrow> all_api req st))"

section \<open>The Redis variant (\<^verbatim>\<open>part_000\<close>)\<close>

text \<open>
  The cache: one entry per key, in the order \<^verbatim>\<open>KEYS *\<close> lists them. A value is
  the JSON text the code stored, kept here as the value that text parses to; every value
  the code stores is an object. \<open>sets\<close> logs every \<^verbatim>\<open>client.set\<close> in the order
  issued; as above, a call takes effect when it is issued.
\<close>

record cstate =
  cache :: "(string \<times> jsval) list"
  sets :: "(string \<times> jsval) list"

definition client_get :: "string \<Rightarrow> cstate \<Rightarrow> jsval option" where
  "client_get k st = map_of (cache st) k"

fun put_entry :: "string \<Rightarrow> jsval \<Rightarrow> (string \<times> jsval) list \<Rightarrow> (string \<times> jsval) list" where
  "put_entry k v [] = [(k, v)]"
| "put_entry k v (p # ps) = (if fst p = k then (k, v) # ps else p # put_entry k v ps)"

definition client_set :: "string \<Rightarrow> jsval \<Rightarrow> cstate \<Rightarrow> cstate" where
  "client_set k v st = st\<lparr>cache := put_entry k v (cache st), sets := sets st @ [(k, v)]\<rparr>"

definition client_keys :: "cstate \<Rightarrow> string list" where
  "client_keys st = map fst (cache st)"

text \<open>String conversion of a value that is a string or \<^verbatim>\<open>undefined\<close>.\<close>

fun js_string :: "string option \<Rightarrow> string" where
  "js_string None = ''undefined''"
| "js_string (Some s) = s"

text \<open>
  \<^verbatim>\<open>String.prototype\<close>: \<^verbatim>\<open>startsWith\<close>, \<^verbatim>\<open>indexOf\<close> and
  \<^verbatim>\<open>lastIndexOf\<close> of one character, \<^verbatim>\<open>substring\<close> with both arguments
  (each clamped to the string, swapped when out of order) and with one.
\<close>

definition startsWith :: "string \<Rightarrow> string \<Rightarrow> bool" where
  "startsWith x p = (take (length p) x = p)"

definition indexOf :: "string \<Rightarrow> char \<Rightarrow> int" where
  "indexOf x c = findIndex (\<lambda>d. d = c) x"

definition lastIndexOf :: "string \<Rightarrow> char \<Rightarrow> int" where
  "lastIndexOf x c =
     (let i = findIndex (\<lambda>d. d = c) (rev x)
      in if i < 0 then - 1 else int (length x) - 1 - i)"

definition clamp_index :: "string \<Rightarrow> int \<Rightarrow> nat" where
  "clamp_index x i = nat (min (max i 0) (int (length x)))"

definition substring :: "string \<Rightarrow> int \<Rightarrow> int \<Rightarrow> string" where
  "substring x s e =
     (let a = clamp_index x s; b = clamp_index x e
      in take (max a b - min a b) (drop (min a b) x))"

definition substring_from :: "string \<Rightarrow> int \<Rightarrow> string" where
  "substring_from x s = drop (clamp_index x s) x"

text \<open>
  Reading property \<^verbatim>\<open>data\<close> of a value: a \<^verbatim>\<open>TypeError\<close> on
  \<^verbatim>\<open>null\<close> and \<^verbatim>\<open>undefined\<close>, the field of an object, \<^verbatim>\<open>undefined\<close>
  on anything else.
\<close>

fun prop_data :: "jsval \<Rightarrow> error + jsval" where
  "prop_data JUndefined = Inl TypeError"
| "prop_data JNull = Inl TypeError"
| "prop_data (JObj kvs) = Inr (case map_of kvs ''data'' of None \<Rightarrow> JUndefined | Some v \<Rightarrow> v)"
| "prop_data _ = Inr JUndefined"

text \<open>
  The override of \<^verbatim>\<open>thirdPartySignInUpPOST\<close> (lines 76-96): one \<^verbatim>\<open>client.set\<close>
  on success.
\<close>

definition thirdPartySignInUpPOST_redis ::
  "(error + signin) option \<Rightarrow> cstate \<Rightarrow> (error + signin) \<times> cstate" where
  "thirdPartySignInUpPOST_redis original st =
     (case original of
        None \<Rightarrow> (Inl (Thrown ''Should never come here''), st)
      | Some (Inl e) \<Rightarrow> (Inl TypeError, st)
      | Some (Inr response) \<Rightarrow>
          if status response = ''OK'' then
            (Inr response,
             client_set (user_id response @ ''_Google Drive_GoogleDrive'')
               (JObj [(''data'', authCodeResponse response)]) st)
          else (Inr response, st))"

text \<open>\<^verbatim>\<open>GET /api/*\<close> (lines 133-146): every key that starts with the user id, parsed.\<close>

definition connection :: "string \<Rightarrow> jsval" where
  "connection x =
     (let start = indexOf x CHR ''_'' + 1;
          end = lastIndexOf x CHR ''_''
      in JObj [(''id'', JStr (substring x start end)),
               (''type'', JStr (substring_from x (end + 1)))])"

definition get_api_redis :: "request \<Rightarrow> cstate \<Rightarrow> reply \<times> cstate" where
  "get_api_redis req st =
     (let userId = sess req;
          keys = client_keys st;
          connections = map connection (filter (\<lambda>x. startsWith x (js_string userId)) keys)
      in (Json (JArr connections), st))"

text \<open>
  \<^verbatim>\<open>PUT /api/*\<close> (lines 148-165). On an existing entry the handler returns a
  \<^verbatim>\<open>Response\<close> object, which Express ignores: nothing is written to the response.
\<close>

definition put_api_redis :: "request \<Rightarrow> cstate \<Rightarrow> reply \<times> cstate" where
  "put_api_redis req st =
     (let connectionName =
            js_string (sess req) @ ''_'' @ body_name req @ ''_'' @ body_type req;
          existingEntry = client_get connectionName st
      in case existingEntry of
           Some v \<Rightarrow> (NoReply, st)
         | None \<Rightarrow>
             (Status 201,
              client_set connectionName
                (JObj [(''name'', JStr (body_name req)), (''data'', body_data req)]) st))"

text \<open>
  The catch-all (lines 167-184). \<^verbatim>\<open>client.get\<close> gives \<^verbatim>\<open>null\<close> for a key
  that is not there, and \<^verbatim>\<open>JSON.parse(null)\<close> is \<^verbatim>\<open>null\<close>. As in
  \<^verbatim>\<open>index.js\<close>, every throw is caught and answered with 500.
\<close>

definition all_api_redis :: "request \<Rightarrow> cstate \<Rightarrow> reply \<times> cstate" where
  "all_api_redis req st =
     (let userId = sess req;
          providerId = headers req ''provider-id'';
          providerType = headers req ''provider-type'';
          connectionName =
            js_string userId @ ''_'' @ js_string providerId @ ''_'' @ js_string providerType;
          providerInfo = (case client_get connectionName st of None \<Rightarrow> JNull | Some v \<Rightarrow> v)
      in case prop_data providerInfo of
           Inl e \<Rightarrow> (Status 500, st)
         | Inr d \<Rightarrow>
             (if header_ok (authenticated_user userId) \<and> credentials_ok d
              then (Forwarded (authenticated_user userId) d, st)
              else (Status 500, st)))"

definition api_route_redis :: "string option \<Rightarrow> request \<Rightarrow> cstate \<Rightarrow> reply \<times> cstate" where
  "api_route_redis DISABLE_AUTH req st =
     (case verifySession (sessionRequired DISABLE_AUTH) (sess req) of
        Unauthorised \<Rightarrow> (Unauthorized, st)
      | Next \<Rightarrow>
          (case verb req of
             GET \<Rightarrow> get_api_redis req st
           | HEAD \<Rightarrow> get_api_redis req st
           | PUT \<Rightarrow> put_api_redis req st
           | _ \<Rightarrow> all_api_redis req st))"

section \<open>Predicates the properties are stated with\<close>


text \<open>No two records of a collection have the same \<^verbatim>\<open>name\<close>, for every user.\<close>

fun unique_names :: "services_field \<Rightarrow> bool" where
  "unique_names (SArray xs) = distinct (map name xs)"
| "unique_names _ = True"

definition unique_per_user :: "mstate \<Rightarrow> bool" where
  "unique_per_user st = (\<forall>v. unique_names (metadata st v))"

text \<open>The key the \<^verbatim>\<open>PUT\<close> handler of the Redis variant computes for a request.\<close>

definition connectionName :: "request \<Rightarrow> string" where
  "connectionName req = js_string (sess req) @ ''_'' @ body_name req @ ''_'' @ body_type req"

section \<open>Example states and requests\<close>

text \<open>
  A metadata service where user \<open>u1\<close> has two services and nobody else has any; one
  where \<open>u1\<close>'s collection has become a number.
\<close>

definition dropbox :: service where
  "dropbox = \<lparr>name = ''Dropbox'', type = ''Dropbox'', data = JStr ''d''\<rparr>"

definition gdrive :: service where
  "gdrive = \<lparr>name = ''Google Drive'', type = ''GoogleDrive'', data = JStr ''old''\<rparr>"

definition st_two :: mstate where
  "st_two = \<lparr>metadata = (\<lambda>_. SUndefined)(Some ''u1'' := SArray [dropbox, gdrive]),
              writes = [], stale_reread = False\<rparr>"

definition st_number :: mstate where
  "st_number = \<lparr>metadata = (\<lambda>_. SUndefined)(Some ''u1'' := SNumber 3),
                 writes = [], stale_reread = False\<rparr>"

definition st_fresh :: mstate where
  "st_fresh = \<lparr>metadata = (\<lambda>_. SUndefined), writes = [], stale_reread = False\<rparr>"

text \<open>
  The same number where the read after the repair is answered before the write; and a
  collection that has become a string.
\<close>

definition st_number_stale :: mstate where
  "st_number_stale = st_number\<lparr>stale_reread := True\<rparr>"

definition st_string :: mstate where
  "st_string = \<lparr>metadata = (\<lambda>_. SUndefined)(Some ''u1'' := SString ''3''),
                 writes = [], stale_reread = False\<rparr>"

definition c_empty :: cstate where
  "c_empty = \<lparr>cache = [], sets = []\<rparr>"

text \<open>A request with no headers, and with the given method, session and body.\<close>

definition request_of :: "http_method \<Rightarrow> string option \<Rightarrow> string \<Rightarrow> string \<Rightarrow> request" where
  "request_of m s n t =
     \<lparr>verb = m, sess = s, headers = (\<lambda>_. None),
      body_name = n, body_type = t, body_data = JObj [(''token'', JStr ''abc'')]\<rparr>"

text \<open>A successful sign-in of \<open>u1\<close>, and a request for the catch-all route.\<close>

definition signin_ok :: signin where
  "signin_ok = \<lparr>status = ''OK'', user_id = ''u1'',
                 authCodeResponse = JObj [(''access_token'', JStr ''t'')]\<rparr>"

definition proxy_request :: "string option \<Rightarrow> string option \<Rightarrow> string option \<Rightarrow> request" where
  "proxy_request s pid ptype =
     \<lparr>verb = POST, sess = s,
      headers = (\<lambda>_. None)(''provider-id'' := pid, ''provider-type'' := ptype),
      body_name = [], body_type = [], body_data = JUndefined\<rparr>"

section \<open>Properties\<close>

subsection \<open>Arrays and strings\<close>

lemma findIndex_range: "- 1 \<le> findIndex P xs \<and> findIndex P xs < int (length xs)"
  by (induction xs) (auto simp: Let_def)

lemma findIndex_neg_iff: "findIndex P xs < 0 \<longleftrightarrow> (\<forall>x \<in> set xs. \<not> P x)"
proof (induction xs)
  case Nil
  show ?case by simp
next
  case (Cons x xs)
  have "- 1 \<le> findIndex P xs" using findIndex_range [of P xs] by simp
  with Cons show ?case by (auto simp: Let_def)
qed

lemma findIndex_holds: "0 \<le> findIndex P xs \<Longrightarrow> P (xs ! nat (findIndex P xs))"
proof (induction xs)
  case Nil
  then show ?case by simp
next
  case (Cons x xs)
  show ?case
  proof (cases "P x")
    case True
    then show ?thesis by simp
  next
    case False
    with Cons.prems have nn: "0 \<le> findIndex P xs"
      by (auto simp: Let_def split: if_splits)
    with Cons.IH have "P (xs ! nat (findIndex P xs))" by simp
    with False nn show ?thesis by (simp add: Let_def nat_add_distrib)
  qed
qed

lemma findIndex_first: "0 \<le> findIndex P xs \<Longrightarrow> j < nat (findIndex P xs) \<Longrightarrow> \<not> P (xs ! j)"
proof (induction xs arbitrary: j)
  case Nil
  then show ?case by simp
next
  case (Cons x xs)
  show ?case
  proof (cases "P x")
    case True
    with Cons.prems show ?thesis by simp
  next
    case False
    with Cons.prems have nn: "0 \<le> findIndex P xs"
      by (auto simp: Let_def split: if_splits)
    with False Cons.prems have j: "j < Suc (nat (findIndex P xs))"
      by (simp add: Let_def nat_add_distrib)
    show ?thesis
    proof (cases j)
      case 0
      with False show ?thesis by simp
    next
      case (Suc k)
      with j have "k < nat (findIndex P xs)" by simp
      with Cons.IH nn have "\<not> P (xs ! k)" by blast
      with Suc show ?thesis by simp
    qed
  qed
qed

lemma findIndex_append_hit:
  "\<forall>y \<in> set ys. \<not> P y \<Longrightarrow> P z \<Longrightarrow> findIndex P (ys @ z # zs) = int (length ys)"
  by (induction ys) (auto simp: Let_def)

lemma startsWith_iff: "startsWith x p \<longleftrightarrow> (\<exists>s. x = p @ s)"
proof
  assume "startsWith x p"
  then have "x = p @ drop (length p) x"
    unfolding startsWith_def by (metis append_take_drop_id)
  then show "\<exists>s. x = p @ s" ..
next
  assume "\<exists>s. x = p @ s"
  then show "startsWith x p" unfolding startsWith_def by auto
qed

lemma startsWith_trans: "startsWith k b \<Longrightarrow> startsWith b a \<Longrightarrow> startsWith k a"
  unfolding startsWith_iff by auto

lemma startsWith_append: "startsWith (b @ s) b"
  unfolding startsWith_iff by blast

lemma indexOf_first:
  "c \<notin> set b \<Longrightarrow> indexOf (b @ c # rest) c = int (length b)"
  unfolding indexOf_def by (rule findIndex_append_hit) auto

lemma lastIndexOf_last:
  assumes "c \<notin> set t"
  shows "lastIndexOf (pre @ c # t) c = int (length pre)"
proof -
  have "findIndex (\<lambda>d. d = c) (rev t @ c # rev pre) = int (length (rev t))"
    by (rule findIndex_append_hit) (use assms in auto)
  then show ?thesis by (simp add: lastIndexOf_def)
qed

lemma connection_of_key:
  assumes "CHR ''_'' \<notin> set b" and "CHR ''_'' \<notin> set t"
  shows "connection (b @ ''_'' @ n @ ''_'' @ t) = JObj [(''id'', JStr n), (''type'', JStr t)]"
proof -
  let ?x = "b @ ''_'' @ n @ ''_'' @ t"
  have i: "indexOf ?x CHR ''_'' = int (length b)"
    using indexOf_first [OF assms(1), of "n @ ''_'' @ t"] by simp
  have l: "lastIndexOf ?x CHR ''_'' = int (length b) + 1 + int (length n)"
    using lastIndexOf_last [OF assms(2), of "b @ ''_'' @ n"] by simp
  have s: "substring ?x (int (length b) + 1) (int (length b) + 1 + int (length n)) = n"
    by (simp add: substring_def clamp_index_def Let_def nat_add_distrib min_def max_def)
  have f: "substring_from ?x (int (length b) + 1 + int (length n) + 1) = t"
    by (simp add: substring_from_def clamp_index_def nat_add_distrib min_def max_def)
  show ?thesis
    by (simp only: connection_def i l Let_def s f)
qed

lemma connection_shape: "\<exists>i t. connection x = JObj [(''id'', JStr i), (''type'', JStr t)]"
  by (simp add: connection_def Let_def)



subsection \<open>The store of \<^verbatim>\<open>index.js\<close>\<close>

lemma getServices_number:
  "metadata st userId = SNumber n \<Longrightarrow>
     getServices userId st =
       (if stale_reread st then SNumber n else SArray [],
        updateUserMetadata userId (SArray []) st)"
  by (simp add: getServices_def getUserMetadata_def updateUserMetadata_def)

lemma getServices_other:
  "\<forall>n. metadata st userId \<noteq> SNumber n \<Longrightarrow> getServices userId st = (metadata st userId, st)"
  by (cases "metadata st userId") (simp_all add: getServices_def getUserMetadata_def)

lemma getServices_undefined:
  "metadata st userId = SUndefined \<Longrightarrow> getServices userId st = (SUndefined, st)"
  by (simp add: getServices_other)

lemma getServices_array:
  "metadata st userId = SArray xs \<Longrightarrow> getServices userId st = (SArray xs, st)"
  by (simp add: getServices_other)

lemma getServices_state:
  "snd (getServices userId st) =
     (case metadata st userId of
        SNumber n \<Rightarrow> updateUserMetadata userId (SArray []) st
      | _ \<Rightarrow> st)"
  by (cases "metadata st userId") (simp_all add: getServices_number getServices_other)

lemma metadata_update_same:
  "metadata (updateUserMetadata userId v st) userId = v"
  by (simp add: updateUserMetadata_def)


lemma writes_update:
  "writes (updateUserMetadata userId v st) = writes st @ [(userId, v)]"
  by (simp add: updateUserMetadata_def)

lemma stale_update:
  "stale_reread (updateUserMetadata userId v st) = stale_reread st"
  by (simp add: updateUserMetadata_def)

lemma getServiceData_array:
  "metadata st userId = SArray xs \<Longrightarrow>
     getServiceData userId nm st = (Inr (find (\<lambda>x. Some (name x) = nm) xs), st)"
  by (simp add: getServiceData_def getServices_array)

lemma getServiceData_undefined:
  "metadata st userId = SUndefined \<Longrightarrow> getServiceData userId nm st = (Inr None, st)"
  by (simp add: getServiceData_def getServices_undefined)

lemma getServiceData_number:
  "metadata st userId = SNumber n \<Longrightarrow>
     getServiceData userId nm st =
       (if stale_reread st \<and> n \<noteq> 0 then Inl TypeError else Inr None,
        updateUserMetadata userId (SArray []) st)"
  by (simp add: getServiceData_def getServices_number)

lemma getServiceData_state:
  "snd (getServiceData userId nm st) = snd (getServices userId st)"
  by (cases "getServices userId st")
     (simp add: getServiceData_def split: services_field.splits)

lemma getServiceData_found:
  assumes "fst (getServiceData userId nm st) = Inr (Some x)"
  shows "\<exists>xs. metadata st userId = SArray xs \<and> x \<in> set xs \<and> Some (name x) = nm"
proof (cases "metadata st userId")
  case (SNumber n)
  with assms show ?thesis by (simp add: getServiceData_number split: if_splits)
next
  case (SArray xs)
  with assms have "find (\<lambda>x. Some (name x) = nm) xs = Some x"
    by (simp add: getServiceData_def getServices_array)
  then have "x \<in> set xs \<and> Some (name x) = nm"
    by (auto simp: find_Some_iff)
  with SArray show ?thesis by simp
qed (use assms in \<open>simp_all add: getServiceData_def getServices_other split: if_splits\<close>)

lemma find_name_None: "nm \<notin> name ` set xs \<Longrightarrow> find (\<lambda>x. name x = nm) xs = None"
  by (auto simp: find_None_iff)

lemma find_name_Some: "nm \<in> name ` set xs \<Longrightarrow> \<exists>x. find (\<lambda>x. name x = nm) xs = Some x"
  by (cases "find (\<lambda>x. name x = nm) xs") (auto simp: find_None_iff)

lemma addService_new:
  assumes "metadata st userId = SArray xs" and "nm \<notin> name ` set xs"
  shows "addService userId nm ty d st =
           (Inr (), updateUserMetadata userId
                      (SArray (xs @ [\<lparr>name = nm, type = ty, data = d\<rparr>])) st)"
  using assms
  by (simp add: addService_def getServices_array getServiceData_array find_name_None)

lemma addService_exists:
  assumes "metadata st userId = SArray xs" and "nm \<in> name ` set xs"
  shows "addService userId nm ty d st =
           (Inl (Thrown ''Trying to add a service which already exists''), st)"
proof -
  from find_name_Some [OF assms(2)] obtain x where
    "find (\<lambda>x. name x = nm) xs = Some x" by blast
  with assms(1) show ?thesis
    by (simp add: addService_def getServices_array getServiceData_array)
qed

lemma addService_undefined:
  assumes "metadata st userId = SUndefined"
  shows "addService userId nm ty d st =
           (Inr (), updateUserMetadata userId (SArray [\<lparr>name = nm, type = ty, data = d\<rparr>]) st)"
  using assms
  by (simp add: addService_def getServices_undefined getServiceData_undefined)

lemma addService_number:
  assumes "metadata st userId = SNumber n"
  shows "addService userId nm ty d st =
           (Inr (), updateUserMetadata userId (SArray [\<lparr>name = nm, type = ty, data = d\<rparr>])
                      (updateUserMetadata userId (SArray []) st))"
proof -
  let ?st1 = "updateUserMetadata userId (SArray []) st"
  have m1: "metadata ?st1 userId = SArray []" by (rule metadata_update_same)
  have "getServiceData userId (Some nm) ?st1 = (Inr None, ?st1)"
    using getServiceData_array [OF m1, of "Some nm"] by simp
  then show ?thesis
    by (simp add: addService_def getServices_number [OF assms])
qed

lemma editService_found:
  assumes "metadata st userId = SArray xs" and "nm \<in> name ` set xs"
  shows "\<exists>i. i < length xs \<and> name (xs ! i) = nm \<and> (\<forall>j<i. name (xs ! j) \<noteq> nm)
           \<and> editService userId nm d st =
               (Inr (), updateUserMetadata userId (SArray (xs[i := (xs ! i)\<lparr>data := d\<rparr>])) st)"
proof -
  let ?P = "\<lambda>x. name x = nm"
  let ?i = "findIndex ?P xs"
  from assms(2) have "\<not> (\<forall>x \<in> set xs. \<not> ?P x)" by auto
  then have "\<not> ?i < 0" using findIndex_neg_iff [of ?P xs] by blast
  then have nn: "0 \<le> ?i" by simp
  have lt: "?i < int (length xs)" using findIndex_range [of ?P xs] by simp
  have a: "nat ?i < length xs" using nn lt by simp
  have b: "name (xs ! nat ?i) = nm" using findIndex_holds [OF nn] by simp
  have c: "\<forall>j<nat ?i. name (xs ! j) \<noteq> nm" using findIndex_first [OF nn] by blast
  have e: "editService userId nm d st =
      (Inr (), updateUserMetadata userId (SArray (xs[nat ?i := (xs ! nat ?i)\<lparr>data := d\<rparr>])) st)"
    using nn lt by (simp add: editService_def getServices_array [OF assms(1)] Let_def)
  from a b c e show ?thesis by blast
qed

lemma editService_missing:
  assumes "metadata st userId = SArray xs" and "nm \<notin> name ` set xs"
  shows "editService userId nm d st = (Inl TypeError, st)"
proof -
  from assms(2) have "\<forall>x \<in> set xs. \<not> name x = nm" by auto
  then have "findIndex (\<lambda>x. name x = nm) xs < 0" using findIndex_neg_iff [of "\<lambda>x. name x = nm" xs] by blast
  then show ?thesis
    by (simp add: editService_def getServices_array [OF assms(1)] Let_def)
qed

lemma editService_not_array:
  assumes "\<forall>xs. metadata st userId \<noteq> SArray xs"
  shows "editService userId nm d st = (Inl TypeError, snd (getServices userId st))"
  using assms
  by (cases "metadata st userId")
     (simp_all add: editService_def getServices_number getServices_other)

lemma map_name_data_update:
  "i < length xs \<Longrightarrow> map name (xs[i := (xs ! i)\<lparr>data := d\<rparr>]) = map name xs"
  by (simp add: map_update list_update_same_conv)

lemma unique_update:
  "unique_per_user st \<Longrightarrow> unique_names v \<Longrightarrow> unique_per_user (updateUserMetadata userId v st)"
  by (simp add: unique_per_user_def updateUserMetadata_def)

lemma unique_getServices: "unique_per_user st \<Longrightarrow> unique_per_user (snd (getServices userId st))"
  by (simp add: getServices_state unique_update split: services_field.splits)

lemma unique_getServiceData:
  "unique_per_user st \<Longrightarrow> unique_per_user (snd (getServiceData userId nm st))"
  by (simp add: getServiceData_state unique_getServices)

lemma addService_scalar:
  assumes "\<forall>n. metadata st userId \<noteq> SNumber n" and "\<forall>xs. metadata st userId \<noteq> SArray xs"
  shows "snd (addService userId nm ty d st) = st
       \<or> snd (addService userId nm ty d st) =
           updateUserMetadata userId (SArray [\<lparr>name = nm, type = ty, data = d\<rparr>]) st"
  using assms
  by (cases "metadata st userId")
     (simp_all add: addService_def getServiceData_def getServices_other)

lemma unique_addService:
  assumes "unique_per_user st"
  shows "unique_per_user (snd (addService userId nm ty d st))"
proof (cases "metadata st userId")
  case (SNumber n)
  then show ?thesis using assms by (simp add: addService_number unique_update)
next
  case (SArray xs)
  from assms have dx: "distinct (map name xs)"
    using SArray unfolding unique_per_user_def by (metis unique_names.simps(1))
  show ?thesis
  proof (cases "nm \<in> name ` set xs")
    case True
    then show ?thesis using assms SArray by (simp add: addService_exists)
  next
    case False
    with dx have "unique_names (SArray (xs @ [\<lparr>name = nm, type = ty, data = d\<rparr>]))" by simp
    then show ?thesis using assms SArray False by (simp add: addService_new unique_update)
  qed
qed (use assms addService_scalar [of st userId nm ty d] in \<open>auto simp: unique_update\<close>)

lemma unique_editService:
  assumes "unique_per_user st"
  shows "unique_per_user (snd (editService userId nm d st))"
proof (cases "\<exists>xs. metadata st userId = SArray xs")
  case False
  then show ?thesis using assms by (simp add: editService_not_array unique_getServices)
next
  case True
  then obtain xs where SArray: "metadata st userId = SArray xs" by blast
  from assms have dx: "distinct (map name xs)"
    using SArray unfolding unique_per_user_def by (metis unique_names.simps(1))
  show ?thesis
  proof (cases "nm \<in> name ` set xs")
    case True
    from editService_found [OF SArray True, of d] obtain i where
      i: "i < length xs"
         "editService userId nm d st =
            (Inr (), updateUserMetadata userId (SArray (xs[i := (xs ! i)\<lparr>data := d\<rparr>])) st)"
      by blast
    have "unique_names (SArray (xs[i := (xs ! i)\<lparr>data := d\<rparr>]))"
      using dx i(1) by (simp add: map_name_data_update)
    then show ?thesis using assms i(2) by (simp add: unique_update)
  next
    case False
    then show ?thesis using assms SArray by (simp add: editService_missing)
  qed
qed

lemma unique_interceptor:
  assumes "unique_per_user st"
  shows "unique_per_user (snd (thirdPartySignInUpPOST original st))"
  using assms
  by (simp add: thirdPartySignInUpPOST_def split_beta unique_getServiceData unique_addService
        unique_editService split: option.splits sum.splits)

lemma st_two_u1: "metadata st_two (Some ''u1'') = SArray [dropbox, gdrive]"
  by (simp add: st_two_def)

lemma st_fresh_any: "metadata st_fresh v = SUndefined"
  by (simp add: st_fresh_def)

lemma unique_st_two: "unique_per_user st_two"
  by (simp add: unique_per_user_def st_two_def dropbox_def gdrive_def)

subsection \<open>The routes\<close>

lemma all_api_reply:
  "fst (all_api req st) =
     (case fst (getServiceData (sess req) (headers req ''provider-id'') st) of
        Inr (Some x) \<Rightarrow>
          if header_ok (authenticated_user (sess req)) \<and> credentials_ok (data x)
          then Forwarded (authenticated_user (sess req)) (data x) else Status 500
      | _ \<Rightarrow> Status 500)"
  by (cases "getServiceData (sess req) (headers req ''provider-id'') st")
     (simp add: all_api_def Let_def split: sum.splits option.splits)

lemma catch_all_route:
  "verb req \<notin> {GET, HEAD, PUT} \<Longrightarrow> sess req = Some u \<Longrightarrow>
     api_route DISABLE_AUTH req st = all_api req st"
  by (cases "verb req") (simp_all add: api_route_def verifySession_def)

lemma catch_all_route_redis:
  "verb req \<notin> {GET, HEAD, PUT} \<Longrightarrow> sess req = Some u \<Longrightarrow>
     api_route_redis DISABLE_AUTH req c = all_api_redis req c"
  by (cases "verb req") (simp_all add: api_route_redis_def verifySession_def)

subsection \<open>The cache of the Redis variant\<close>

lemma put_entry_keys: "k \<in> fst ` set (put_entry k v ps)"
  by (induction ps) auto

lemma put_entry_fst: "fst ` set (put_entry k v ps) = insert k (fst ` set ps)"
  by (induction ps) auto

lemma put_entry_distinct: "distinct (map fst ps) \<Longrightarrow> distinct (map fst (put_entry k v ps))"
proof (induction ps)
  case Nil
  then show ?case by simp
next
  case (Cons p ps)
  then show ?case using put_entry_fst [of k v ps] by (cases p) auto
qed

lemma put_entry_get: "map_of (put_entry k v ps) k = Some v"
  by (induction ps) auto

lemma put_api_redis_new:
  "client_get (connectionName req) st = None \<Longrightarrow>
     put_api_redis req st =
       (Status 201,
        client_set (connectionName req)
          (JObj [(''name'', JStr (body_name req)), (''data'', body_data req)]) st)"
  by (simp add: put_api_redis_def connectionName_def)

lemma put_api_redis_existing:
  "client_get (connectionName req) st = Some v \<Longrightarrow> put_api_redis req st = (NoReply, st)"
  by (simp add: put_api_redis_def connectionName_def)

lemma client_keys_set: "k \<in> set (client_keys (client_set k v st))"
  using put_entry_keys [of k v "cache st"] by (simp add: client_keys_def client_set_def)

lemma client_get_keys: "client_get k st = Some v \<Longrightarrow> k \<in> set (client_keys st)"
  unfolding client_get_def client_keys_def by (metis domI dom_map_of_conv_image_fst set_map)

lemma put_api_redis_key: "connectionName req \<in> set (client_keys (snd (put_api_redis req st)))"
proof (cases "client_get (connectionName req) st")
  case None
  then show ?thesis by (simp add: put_api_redis_new client_keys_set)
next
  case (Some v)
  then show ?thesis by (simp add: put_api_redis_existing client_get_keys)
qed


subsection \<open>The listing\<close>




subsection \<open>Uniqueness of names\<close>

text \<open>
  C2, as stated, fails in the Redis variant, where the key of an entry holds the type as
  well as the name: \<open>u1\<close> registers \<^verbatim>\<open>Drive\<close> with type \<^verbatim>\<open>A\<close> and then with
  type \<^verbatim>\<open>B\<close>; the second registration is answered 201 and the listing of \<open>u1\<close>
  then shows two records named \<^verbatim>\<open>Drive\<close>.
\<close>

theorem same_name_registered_twice_redis:
  "fst (put_api_redis (request_of PUT (Some ''u1'') ''Drive'' ''B'')
         (snd (put_api_redis (request_of PUT (Some ''u1'') ''Drive'' ''A'') c_empty))) = Status 201
   \<and> fst (get_api_redis (request_of GET (Some ''u1'') [] [])
         (snd (put_api_redis (request_of PUT (Some ''u1'') ''Drive'' ''B'')
           (snd (put_api_redis (request_of PUT (Some ''u1'') ''Drive'' ''A'') c_empty)))))
       = Json (JArr [JObj [(''id'', JStr ''Drive''), (''type'', JStr ''A'')],
                     JObj [(''id'', JStr ''Drive''), (''type'', JStr ''B'')]])"
  by code_simp

text \<open>
  C2, amended. In \<^verbatim>\<open>index.js\<close>, if every user's records have distinct names, they
  still have after \<^verbatim>\<open>addService\<close>, after \<^verbatim>\<open>editService\<close> and after the sign-in
  interceptor; \<^verbatim>\<open>addService\<close> with a name the user already has throws and writes
  nothing, and with a new name appends the record. In the Redis variant a registration
  under a key (user, name and type) that exists writes nothing, a registration under a new
  key stores the entry and is answered 201, and the keys of the cache stay distinct.
\<close>

theorem name_uniqueness_preserved:
  assumes "unique_per_user st"
  shows "unique_per_user (snd (addService userId nm ty d st))
       \<and> unique_per_user (snd (editService userId nm d st))
       \<and> unique_per_user (snd (thirdPartySignInUpPOST original st))
       \<and> (\<forall>xs. metadata st userId = SArray xs \<and> nm \<in> name ` set xs \<longrightarrow>
            addService userId nm ty d st =
              (Inl (Thrown ''Trying to add a service which already exists''), st))
       \<and> (\<forall>xs. metadata st userId = SArray xs \<and> nm \<notin> name ` set xs \<longrightarrow>
            addService userId nm ty d st =
              (Inr (), updateUserMetadata userId
                         (SArray (xs @ [\<lparr>name = nm, type = ty, data = d\<rparr>])) st))
       \<and> (\<forall>v. client_get (connectionName req) c = Some v \<longrightarrow> snd (put_api_redis req c) = c)
       \<and> (client_get (connectionName req) c = None \<longrightarrow>
            fst (put_api_redis req c) = Status 201
            \<and> client_get (connectionName req) (snd (put_api_redis req c)) =
                Some (JObj [(''name'', JStr (body_name req)), (''data'', body_data req)]))
       \<and> (distinct (client_keys c) \<longrightarrow> distinct (client_keys (snd (put_api_redis req c))))"
proof (intro conjI allI impI)
  show "unique_per_user (snd (addService userId nm ty d st))"
    using assms by (rule unique_addService)
  show "unique_per_user (snd (editService userId nm d st))"
    using assms by (rule unique_editService)
  show "unique_per_user (snd (thirdPartySignInUpPOST original st))"
    using assms by (rule unique_interceptor)
next
  fix xs assume "metadata st userId = SArray xs \<and> nm \<in> name ` set xs"
  then show "addService userId nm ty d st =
              (Inl (Thrown ''Trying to add a service which already exists''), st)"
    by (simp add: addService_exists)
next
  fix xs assume "metadata st userId = SArray xs \<and> nm \<notin> name ` set xs"
  then show "addService userId nm ty d st =
              (Inr (), updateUserMetadata userId
                         (SArray (xs @ [\<lparr>name = nm, type = ty, data = d\<rparr>])) st)"
    by (simp add: addService_new)
next
  fix v assume "client_get (connectionName req) c = Some v"
  then show "snd (put_api_redis req c) = c" by (simp add: put_api_redis_existing)
next
  assume n: "client_get (connectionName req) c = None"
  then show "fst (put_api_redis req c) = Status 201" by (simp add: put_api_redis_new)
  show "client_get (connectionName req) (snd (put_api_redis req c)) =
                Some (JObj [(''name'', JStr (body_name req)), (''data'', body_data req)])"
    using n by (simp add: put_api_redis_new client_get_def client_set_def put_entry_get)
next
  assume dk: "distinct (client_keys c)"
  show "distinct (client_keys (snd (put_api_redis req c)))"
  proof (cases "client_get (connectionName req) c")
    case None
    then show ?thesis using dk
      by (simp add: put_api_redis_new client_keys_def client_set_def put_entry_distinct)
  next
    case (Some v)
    then show ?thesis using dk by (simp add: put_api_redis_existing)
  qed
qed

theorem name_uniqueness_preserved_witness:
  "unique_per_user st_two
   \<and> unique_per_user (snd (addService (Some ''u1'') ''Box'' ''Box'' JNull st_two))
   \<and> addService (Some ''u1'') ''Dropbox'' ''Other'' JNull st_two =
       (Inl (Thrown ''Trying to add a service which already exists''), st_two)
   \<and> fst (put_api_redis (request_of PUT (Some ''u1'') ''Drive'' ''A'') c_empty) = Status 201
   \<and> snd (put_api_redis (request_of PUT (Some ''u1'') ''Drive'' ''A'')
            (snd (put_api_redis (request_of PUT (Some ''u1'') ''Drive'' ''A'') c_empty)))
       = snd (put_api_redis (request_of PUT (Some ''u1'') ''Drive'' ''A'') c_empty)"
proof -
  let ?req = "request_of PUT (Some ''u1'') ''Drive'' ''A''"
  let ?c1 = "snd (put_api_redis ?req c_empty)"
  have d: "''Dropbox'' \<in> name ` set [dropbox, gdrive]" by (simp add: dropbox_def)
  have n: "client_get (connectionName ?req) c_empty = None"
    by (simp add: client_get_def c_empty_def)
  have e: "client_get (connectionName ?req) ?c1 =
             Some (JObj [(''name'', JStr (body_name ?req)), (''data'', body_data ?req)])"
    using name_uniqueness_preserved [OF unique_st_two, of "Some ''u1''" "''Box''" "''Box''" JNull None ?req c_empty] n
    by blast
  from unique_st_two st_two_u1 d n e
    name_uniqueness_preserved [OF unique_st_two, of "Some ''u1''" "''Box''" "''Box''" JNull None ?req c_empty]
    name_uniqueness_preserved [OF unique_st_two, of "Some ''u1''" "''Dropbox''" "''Other''" JNull None ?req ?c1]
  show ?thesis by blast
qed

subsection \<open>The sign-in interceptor\<close>

text \<open>
  C3, as stated, fails when the stored collection of the user is not an array. For a
  number, the lookup first issues the repair: when the repair is applied before the second
  read, \<^verbatim>\<open>addService\<close> then writes the collection, two writes for one sign-in; when
  the second read still returns the number, \<^verbatim>\<open>services.find\<close> throws and the
  interceptor is rejected after the repair alone. For a string it is rejected without
  any write.
\<close>

theorem sign_in_not_one_write:
  "status signin_ok = ''OK''
   \<and> writes (snd (thirdPartySignInUpPOST (Some (Inr signin_ok)) st_number)) =
       [(Some ''u1'', SArray []),
        (Some ''u1'', SArray [\<lparr>name = ''Google Drive'', type = ''GoogleDrive'',
                               data = JObj [(''access_token'', JStr ''t'')]\<rparr>])]
   \<and> thirdPartySignInUpPOST (Some (Inr signin_ok)) st_number_stale =
       (Inl TypeError, updateUserMetadata (Some ''u1'') (SArray []) st_number_stale)
   \<and> thirdPartySignInUpPOST (Some (Inr signin_ok)) st_string = (Inl TypeError, st_string)"
  by (simp add: signin_ok_def st_number_def st_number_stale_def st_string_def
        thirdPartySignInUpPOST_def getServiceData_def
        getServices_def getUserMetadata_def updateUserMetadata_def addService_def Let_def)

text \<open>
  C3, amended. After a successful completion (status \<^verbatim>\<open>OK\<close>) for a user whose
  stored collection is an array, or for whom nothing is stored, the interceptor returns
  the completion's result unchanged and writes the store exactly once: the collection with
  a \<^verbatim>\<open>Google Drive\<close> record appended when the user has no such record, the
  collection with the \<^verbatim>\<open>data\<close> of the first such record replaced by the token
  response otherwise. When the stored collection is a number and the repair is applied
  before the second read, the repair write comes first and the register follows, two
  writes. In the Redis variant the interceptor returns the result unchanged and issues
  exactly one \<^verbatim>\<open>client.set\<close>.
\<close>

theorem sign_in_store_write:
  assumes ok: "status r = ''OK''"
  shows "(metadata st (Some (user_id r)) = SUndefined \<longrightarrow>
         thirdPartySignInUpPOST (Some (Inr r)) st =
           (Inr r, updateUserMetadata (Some (user_id r))
             (SArray [\<lparr>name = ''Google Drive'', type = ''GoogleDrive'', data = authCodeResponse r\<rparr>]) st))
    \<and> (\<forall>xs. metadata st (Some (user_id r)) = SArray xs \<and> ''Google Drive'' \<notin> name ` set xs \<longrightarrow>
         thirdPartySignInUpPOST (Some (Inr r)) st =
           (Inr r, updateUserMetadata (Some (user_id r))
             (SArray (xs @ [\<lparr>name = ''Google Drive'', type = ''GoogleDrive'',
                              data = authCodeResponse r\<rparr>])) st))
    \<and> (\<forall>xs. metadata st (Some (user_id r)) = SArray xs \<and> ''Google Drive'' \<in> name ` set xs \<longrightarrow>
         (\<exists>i<length xs. name (xs ! i) = ''Google Drive''
            \<and> (\<forall>j<i. name (xs ! j) \<noteq> ''Google Drive'')
            \<and> thirdPartySignInUpPOST (Some (Inr r)) st =
                (Inr r, updateUserMetadata (Some (user_id r))
                  (SArray (xs[i := (xs ! i)\<lparr>data := authCodeResponse r\<rparr>])) st)))
    \<and> (metadata st (Some (user_id r)) = SUndefined
          \<or> (\<exists>xs. metadata st (Some (user_id r)) = SArray xs) \<longrightarrow>
         fst (thirdPartySignInUpPOST (Some (Inr r)) st) = Inr r
         \<and> length (writes (snd (thirdPartySignInUpPOST (Some (Inr r)) st))) = length (writes st) + 1)
    \<and> (\<forall>n. metadata st (Some (user_id r)) = SNumber n \<and> \<not> stale_reread st \<longrightarrow>
         thirdPartySignInUpPOST (Some (Inr r)) st =
           (Inr r, updateUserMetadata (Some (user_id r))
             (SArray [\<lparr>name = ''Google Drive'', type = ''GoogleDrive'', data = authCodeResponse r\<rparr>])
             (updateUserMetadata (Some (user_id r)) (SArray []) st)))
    \<and> thirdPartySignInUpPOST_redis (Some (Inr r)) c =
        (Inr r, client_set (user_id r @ ''_Google Drive_GoogleDrive'')
                  (JObj [(''data'', authCodeResponse r)]) c)
    \<and> length (sets (snd (thirdPartySignInUpPOST_redis (Some (Inr r)) c))) = length (sets c) + 1"
proof -
  let ?u = "Some (user_id r)"
  let ?g = "\<lparr>name = ''Google Drive'', type = ''GoogleDrive'', data = authCodeResponse r\<rparr>"
  let ?run = "thirdPartySignInUpPOST (Some (Inr r)) st"
  have undef: "?run = (Inr r, updateUserMetadata ?u (SArray [?g]) st)"
    if "metadata st ?u = SUndefined"
    using that ok
    by (simp add: thirdPartySignInUpPOST_def getServiceData_undefined addService_undefined)
  have num: "?run = (Inr r, updateUserMetadata ?u (SArray [?g]) (updateUserMetadata ?u (SArray []) st))"
    if "metadata st ?u = SNumber n \<and> \<not> stale_reread st" for n
  proof -
    let ?st1 = "updateUserMetadata ?u (SArray []) st"
    have m1: "metadata ?st1 ?u = SArray []" by (rule metadata_update_same)
    have "addService ?u ''Google Drive'' ''GoogleDrive'' (authCodeResponse r) ?st1 =
            (Inr (), updateUserMetadata ?u (SArray ([] @ [?g])) ?st1)"
      by (rule addService_new [OF m1]) simp
    then show ?thesis
      using ok that by (simp add: thirdPartySignInUpPOST_def getServiceData_number)
  qed
  have new: "?run = (Inr r, updateUserMetadata ?u (SArray (xs @ [?g])) st)"
    if "metadata st ?u = SArray xs \<and> ''Google Drive'' \<notin> name ` set xs" for xs
    using that ok
    by (simp add: thirdPartySignInUpPOST_def getServiceData_array find_name_None addService_new)
  have old: "\<exists>i<length xs. name (xs ! i) = ''Google Drive''
            \<and> (\<forall>j<i. name (xs ! j) \<noteq> ''Google Drive'')
            \<and> ?run = (Inr r, updateUserMetadata ?u
                  (SArray (xs[i := (xs ! i)\<lparr>data := authCodeResponse r\<rparr>])) st)"
    if me: "metadata st ?u = SArray xs \<and> ''Google Drive'' \<in> name ` set xs" for xs
  proof -
    from me have m: "metadata st ?u = SArray xs" and e: "''Google Drive'' \<in> name ` set xs"
      by simp_all
    from find_name_Some [OF e] obtain x where
      f: "find (\<lambda>x. name x = ''Google Drive'') xs = Some x" by blast
    from editService_found [OF m e, of "authCodeResponse r"] obtain i where
      i: "i < length xs" "name (xs ! i) = ''Google Drive''"
         "\<forall>j<i. name (xs ! j) \<noteq> ''Google Drive''"
         "editService ?u ''Google Drive'' (authCodeResponse r) st =
            (Inr (), updateUserMetadata ?u (SArray (xs[i := (xs ! i)\<lparr>data := authCodeResponse r\<rparr>])) st)"
      by blast
    have "?run = (Inr r, updateUserMetadata ?u
                  (SArray (xs[i := (xs ! i)\<lparr>data := authCodeResponse r\<rparr>])) st)"
      using ok f i(4) by (simp add: thirdPartySignInUpPOST_def getServiceData_array [OF m])
    with i show ?thesis by blast
  qed
  have one: "fst ?run = Inr r \<and> length (writes (snd ?run)) = length (writes st) + 1"
    if h: "metadata st ?u = SUndefined \<or> (\<exists>xs. metadata st ?u = SArray xs)"
  proof -
    from h consider "metadata st ?u = SUndefined"
      | xs where "metadata st ?u = SArray xs \<and> ''Google Drive'' \<notin> name ` set xs"
      | xs where "metadata st ?u = SArray xs \<and> ''Google Drive'' \<in> name ` set xs"
      by blast
    then show ?thesis
    proof cases
      case 1
      then show ?thesis using undef by (simp add: writes_update)
    next
      case 2
      then show ?thesis using new [of xs] by (simp add: writes_update)
    next
      case 3
      then show ?thesis using old [of xs] by (auto simp: writes_update)
    qed
  qed
  have redis: "thirdPartySignInUpPOST_redis (Some (Inr r)) c =
        (Inr r, client_set (user_id r @ ''_Google Drive_GoogleDrive'')
                  (JObj [(''data'', authCodeResponse r)]) c)"
    using ok by (simp add: thirdPartySignInUpPOST_redis_def)
  have rcount: "length (sets (snd (thirdPartySignInUpPOST_redis (Some (Inr r)) c))) = length (sets c) + 1"
    by (simp add: redis client_set_def)
  from undef new old one num redis rcount show ?thesis by blast
qed

theorem sign_in_store_write_witness:
  "status signin_ok = ''OK''
   \<and> fst (thirdPartySignInUpPOST (Some (Inr signin_ok)) st_two) = Inr signin_ok
   \<and> length (writes (snd (thirdPartySignInUpPOST (Some (Inr signin_ok)) st_two))) = 1
   \<and> thirdPartySignInUpPOST (Some (Inr signin_ok)) st_fresh =
       (Inr signin_ok, updateUserMetadata (Some ''u1'')
         (SArray [\<lparr>name = ''Google Drive'', type = ''GoogleDrive'',
                    data = JObj [(''access_token'', JStr ''t'')]\<rparr>]) st_fresh)
   \<and> length (writes (snd (thirdPartySignInUpPOST (Some (Inr signin_ok)) st_number))) = 2"
proof -
  have ok: "status signin_ok = ''OK''" by (simp add: signin_ok_def)
  have u: "user_id signin_ok = ''u1''" by (simp add: signin_ok_def)
  have a: "authCodeResponse signin_ok = JObj [(''access_token'', JStr ''t'')]"
    by (simp add: signin_ok_def)
  have w2: "writes st_two = []" by (simp add: st_two_def)
  have wn: "writes st_number = []" by (simp add: st_number_def)
  have mn: "metadata st_number (Some (user_id signin_ok)) = SNumber 3 \<and> \<not> stale_reread st_number"
    by (simp add: st_number_def u)
  have m2: "metadata st_two (Some (user_id signin_ok)) = SUndefined
              \<or> (\<exists>xs. metadata st_two (Some (user_id signin_ok)) = SArray xs)"
    by (simp add: u st_two_u1)
  let ?run = "\<lambda>st. thirdPartySignInUpPOST (Some (Inr signin_ok)) st"
  have "fst (?run st_two) = Inr signin_ok
         \<and> length (writes (snd (?run st_two))) = length (writes st_two) + 1"
    using sign_in_store_write [OF ok, of st_two c_empty] m2 by blast
  then have r: "fst (?run st_two) = Inr signin_ok"
    and c2: "length (writes (snd (?run st_two))) = 1"
    by (simp_all add: w2)
  have "?run st_number =
          (Inr signin_ok, updateUserMetadata (Some (user_id signin_ok))
             (SArray [\<lparr>name = ''Google Drive'', type = ''GoogleDrive'',
                        data = authCodeResponse signin_ok\<rparr>])
             (updateUserMetadata (Some (user_id signin_ok)) (SArray []) st_number))"
    using sign_in_store_write [OF ok, of st_number c_empty] mn by blast
  then have cn: "length (writes (snd (?run st_number))) = 2"
    by (simp add: writes_update wn)
  have "metadata st_fresh (Some (user_id signin_ok)) = SUndefined" by (rule st_fresh_any)
  then have "?run st_fresh =
       (Inr signin_ok, updateUserMetadata (Some (user_id signin_ok))
         (SArray [\<lparr>name = ''Google Drive'', type = ''GoogleDrive'',
                    data = authCodeResponse signin_ok\<rparr>]) st_fresh)"
    using sign_in_store_write [OF ok, of st_fresh c_empty] by blast
  then have f: "?run st_fresh =
       (Inr signin_ok, updateUserMetadata (Some ''u1'')
         (SArray [\<lparr>name = ''Google Drive'', type = ''GoogleDrive'',
                    data = JObj [(''access_token'', JStr ''t'')]\<rparr>]) st_fresh)"
    by (simp only: u a)
  from ok r c2 cn f show ?thesis by blast
qed

subsection \<open>The session gate\<close>

text \<open>
  C4. When a session is required and the request carries no valid session, every
  \<^verbatim>\<open>/api/*\<close> route, in both variants, answers 401 at the gate: the reply is not a
  forward to the backend, and the store (its contents and its log of writes) is exactly
  what it was.
\<close>

theorem no_session_is_unauthorized:
  assumes "sessionRequired DISABLE_AUTH" and "sess req = None"
  shows "api_route DISABLE_AUTH req st = (Unauthorized, st)
       \<and> api_route_redis DISABLE_AUTH req c = (Unauthorized, c)"
  using assms by (simp add: api_route_def api_route_redis_def verifySession_def)

theorem no_session_is_unauthorized_witness:
  "sessionRequired None
   \<and> api_route None (request_of POST None [] []) st_two = (Unauthorized, st_two)
   \<and> api_route_redis None (request_of PUT None ''a'' ''b'') c_empty = (Unauthorized, c_empty)"
proof -
  have h: "sessionRequired None" by (simp add: sessionRequired_def)
  have s1: "sess (request_of POST None [] []) = None" by (simp add: request_of_def)
  have s2: "sess (request_of PUT None ''a'' ''b'') = None" by (simp add: request_of_def)
  show ?thesis
    using h no_session_is_unauthorized [OF h s1, of st_two c_empty]
      no_session_is_unauthorized [OF h s2, of st_two c_empty]
    by simp
qed

subsection \<open>A lookup that finds nothing\<close>

text \<open>
  C5, as stated, fails in the Redis variant, where a key is the caller's id, the
  \<^verbatim>\<open>provider-id\<close> header and the \<^verbatim>\<open>provider-type\<close> header joined by
  underscores, none of them escaped. \<open>u1\<close> registers \<^verbatim>\<open>x_Box\<close> of type
  \<^verbatim>\<open>T\<close>; the caller \<^verbatim>\<open>u1_x\<close>, who has registered nothing, asks for
  \<^verbatim>\<open>Box\<close> of type \<^verbatim>\<open>T\<close> and is forwarded with the data of \<open>u1\<close>. And
  \<open>u1\<close>, having registered \<^verbatim>\<open>a\<close> of type \<^verbatim>\<open>b_c\<close> only, is forwarded when
  asking for \<^verbatim>\<open>a_b\<close> of type \<^verbatim>\<open>c\<close>.
\<close>

theorem unowned_headers_hit_concatenated_key:
  "fst (api_route_redis None (proxy_request (Some ''u1_x'') (Some ''Box'') (Some ''T''))
          (snd (api_route_redis None (request_of PUT (Some ''u1'') ''x_Box'' ''T'') c_empty)))
     = Forwarded ''u1_x'' (JObj [(''token'', JStr ''abc'')])
   \<and> fst (api_route_redis None (proxy_request (Some ''u1'') (Some ''a_b'') (Some ''c''))
          (snd (api_route_redis None (request_of PUT (Some ''u1'') ''a'' ''b_c'') c_empty)))
     = Forwarded ''u1'' (JObj [(''token'', JStr ''abc'')])"
  by code_simp

text \<open>
  C5, amended. A request with a valid session that reaches the catch-all route (any
  method but \<^verbatim>\<open>GET\<close>, \<^verbatim>\<open>HEAD\<close> and \<^verbatim>\<open>PUT\<close>) is answered with status
  500 and an empty body, and not forwarded: in \<^verbatim>\<open>index.js\<close> when the caller's
  collection is not an array that holds a record whose name is the \<^verbatim>\<open>provider-id\<close>
  header; in the Redis variant when the cache has no entry under the key made of the
  caller's id and the two headers, and then the cache is unchanged. A request that is
  forwarded carries the \<^verbatim>\<open>data\<close> of such a record of the caller's array, or of the
  entry under that key, and nothing else.
\<close>

theorem lookup_miss_is_500:
  assumes "sess req = Some u" and "verb req \<notin> {GET, HEAD, PUT}"
  shows "((\<forall>xs. metadata st (Some u) = SArray xs \<longrightarrow>
             (\<forall>x \<in> set xs. Some (name x) \<noteq> headers req ''provider-id''))
          \<longrightarrow> fst (api_route DISABLE_AUTH req st) = Status 500)
       \<and> (\<forall>a d. fst (api_route DISABLE_AUTH req st) = Forwarded a d \<longrightarrow>
             (\<exists>xs x. metadata st (Some u) = SArray xs \<and> x \<in> set xs
                \<and> Some (name x) = headers req ''provider-id'' \<and> d = data x))
       \<and> (client_get (u @ ''_'' @ js_string (headers req ''provider-id'') @ ''_''
                        @ js_string (headers req ''provider-type'')) c = None
          \<longrightarrow> api_route_redis DISABLE_AUTH req c = (Status 500, c))
       \<and> (\<forall>a d. fst (api_route_redis DISABLE_AUTH req c) = Forwarded a d \<longrightarrow>
             (\<exists>v. client_get (u @ ''_'' @ js_string (headers req ''provider-id'') @ ''_''
                        @ js_string (headers req ''provider-type'')) c = Some v
                \<and> prop_data v = Inr d))"
proof -
  let ?g = "fst (getServiceData (Some u) (headers req ''provider-id'') st)"
  have fwd: "\<exists>xs x. metadata st (Some u) = SArray xs \<and> x \<in> set xs
                \<and> Some (name x) = headers req ''provider-id'' \<and> d = data x"
    if "fst (api_route DISABLE_AUTH req st) = Forwarded a d" for a d
  proof -
    from that have "fst (all_api req st) = Forwarded a d"
      using catch_all_route [OF assms(2) assms(1)] by simp
    then obtain x where x: "?g = Inr (Some x)" and d: "d = data x"
      using assms(1)
      by (auto simp: all_api_reply split: sum.splits option.splits if_splits)
    from getServiceData_found [OF x] d show ?thesis by blast
  qed
  have miss: "fst (api_route DISABLE_AUTH req st) = Status 500"
    if m: "\<forall>xs. metadata st (Some u) = SArray xs \<longrightarrow>
             (\<forall>x \<in> set xs. Some (name x) \<noteq> headers req ''provider-id'')"
  proof -
    have "?g \<noteq> Inr (Some x)" for x
      using getServiceData_found [of "Some u" "headers req ''provider-id''" st x] m by blast
    then have "fst (all_api req st) = Status 500"
      using assms(1) by (simp add: all_api_reply split: sum.splits option.splits)
    then show ?thesis using catch_all_route [OF assms(2) assms(1)] by simp
  qed
  let ?k = "u @ ''_'' @ js_string (headers req ''provider-id'') @ ''_''
              @ js_string (headers req ''provider-type'')"
  have rmiss: "api_route_redis DISABLE_AUTH req c = (Status 500, c)" if "client_get ?k c = None"
  proof -
    from that have "all_api_redis req c = (Status 500, c)"
      using assms(1) by (simp add: all_api_redis_def)
    then show ?thesis using catch_all_route_redis [OF assms(2) assms(1)] by simp
  qed
  have rfwd: "\<exists>v. client_get ?k c = Some v \<and> prop_data v = Inr d"
    if "fst (api_route_redis DISABLE_AUTH req c) = Forwarded a d" for a d
  proof -
    from that have f: "fst (all_api_redis req c) = Forwarded a d"
      using catch_all_route_redis [OF assms(2) assms(1)] by simp
    show ?thesis
    proof (cases "client_get ?k c")
      case None
      with f assms(1) show ?thesis by (simp add: all_api_redis_def)
    next
      case (Some v)
      with f assms(1) show ?thesis
        by (auto simp: all_api_redis_def Let_def split: sum.splits if_splits)
    qed
  qed
  from miss fwd rmiss rfwd show ?thesis by blast
qed

theorem lookup_miss_is_500_witness:
  "fst (api_route None (proxy_request (Some ''u1'') (Some ''Box'') None) st_two) = Status 500
   \<and> fst (api_route None (proxy_request (Some ''u2'') (Some ''Dropbox'') None) st_two) = Status 500
   \<and> api_route_redis None (proxy_request (Some ''u1'') (Some ''Box'') (Some ''Box'')) c_empty
       = (Status 500, c_empty)
   \<and> fst (api_route None (proxy_request (Some ''u1'') (Some ''Google Drive'') None) st_two)
       = Forwarded ''u1'' (JStr ''old'')"
proof -
  have fw: "fst (api_route None (proxy_request (Some ''u1'') (Some ''Google Drive'') None) st_two)
       = Forwarded ''u1'' (JStr ''old'')"
    by (simp add: api_route_def verifySession_def sessionRequired_def proxy_request_def
          all_api_def getServiceData_def getServices_def getUserMetadata_def st_two_def
          dropbox_def gdrive_def header_ok_def credentials_ok_def)
  have s: "sess (proxy_request (Some u) p t) = Some u" for u p t by (simp add: proxy_request_def)
  have g: "verb (proxy_request (Some u) p t) \<notin> {GET, HEAD, PUT}" for u p t
    by (simp add: proxy_request_def)
  have h1: "\<forall>xs. metadata st_two (Some ''u1'') = SArray xs \<longrightarrow>
      (\<forall>x \<in> set xs. Some (name x) \<noteq> headers (proxy_request (Some ''u1'') (Some ''Box'') None) ''provider-id'')"
    by (simp add: st_two_def proxy_request_def dropbox_def gdrive_def)
  have h2: "\<forall>xs. metadata st_two (Some ''u2'') = SArray xs \<longrightarrow>
      (\<forall>x \<in> set xs. Some (name x) \<noteq> headers (proxy_request (Some ''u2'') (Some ''Dropbox'') None) ''provider-id'')"
    by (simp add: st_two_def)
  have h3: "client_get (''u1'' @ ''_'' @ js_string (headers (proxy_request (Some ''u1'') (Some ''Box'') (Some ''Box'')) ''provider-id'') @ ''_''
                        @ js_string (headers (proxy_request (Some ''u1'') (Some ''Box'') (Some ''Box'')) ''provider-type'')) c_empty = None"
    by (simp add: client_get_def c_empty_def)
  from lookup_miss_is_500 [where req = "proxy_request (Some ''u1'') (Some ''Box'') None" and u = "''u1''"
             and st = st_two and DISABLE_AUTH = None and c = c_empty, OF s g]
    lookup_miss_is_500 [where req = "proxy_request (Some ''u2'') (Some ''Dropbox'') None" and u = "''u2''"
             and st = st_two and DISABLE_AUTH = None and c = c_empty, OF s g]
    lookup_miss_is_500 [where req = "proxy_request (Some ''u1'') (Some ''Box'') (Some ''Box'')" and u = "''u1''"
             and st = st_two and DISABLE_AUTH = None and c = c_empty, OF s g]
    h1 h2 h3 fw
  show ?thesis by blast
qed

subsection \<open>The repair of a collection that became a number\<close>




subsection \<open>Updating a service\<close>



subsection \<open>A user with no records\<close>

text \<open>
  C8, as stated, fails for a user for whom nothing was ever stored: \<^verbatim>\<open>getServices\<close>
  returns \<^verbatim>\<open>undefined\<close>, not the empty array, and the listing calls
  \<^verbatim>\<open>res.json(undefined)\<close>, not \<^verbatim>\<open>res.json([])\<close>.
\<close>

theorem fresh_user_listing_is_undefined:
  "fst (getServices (Some ''u1'') st_fresh) \<noteq> SArray []
   \<and> fst (get_api (request_of GET (Some ''u1'') [] []) st_fresh) \<noteq> Json (JArr [])"
  by (simp add: getServices_def getUserMetadata_def get_api_def st_fresh_def request_of_def)

text \<open>
  C8, amended. For a user with no records \<^verbatim>\<open>getServices\<close> returns what is stored
  and changes nothing: the empty array when the stored collection is the empty array,
  \<^verbatim>\<open>undefined\<close> when nothing is stored. The listing answers with the empty JSON
  array in the first case and with \<^verbatim>\<open>res.json(undefined)\<close> in the second; in
  neither is the handler rejected.
\<close>

theorem no_records_listing:
  "(metadata st userId = SArray [] \<longrightarrow>
      getServices userId st = (SArray [], st)
      \<and> (sess req = userId \<longrightarrow> get_api req st = (Json (JArr []), st)))
   \<and> (metadata st userId = SUndefined \<longrightarrow>
      getServices userId st = (SUndefined, st)
      \<and> (sess req = userId \<longrightarrow> get_api req st = (Json JUndefined, st)))"
  by (simp add: getServices_array getServices_undefined get_api_def)

theorem no_records_listing_witness:
  "getServices (Some ''u1'') st_fresh = (SUndefined, st_fresh)
   \<and> get_api (request_of GET (Some ''u1'') [] []) st_fresh = (Json JUndefined, st_fresh)
   \<and> get_api (request_of GET (Some ''u1'') [] []) (snd (getServices (Some ''u1'') st_number)) =
       (Json (JArr []), snd (getServices (Some ''u1'') st_number))"
proof -
  let ?req = "request_of GET (Some ''u1'') [] []"
  let ?st = "snd (getServices (Some ''u1'') st_number)"
  have s: "sess ?req = Some ''u1''" by (simp add: request_of_def)
  have m: "metadata ?st (Some ''u1'') = SArray []"
    by (simp add: st_number_def getServices_def getUserMetadata_def updateUserMetadata_def)
  from no_records_listing [of st_fresh "Some ''u1''" ?req] no_records_listing [of ?st "Some ''u1''" ?req] s m st_fresh_any
  show ?thesis by blast
qed

subsection \<open>Listing by prefix\<close>

text \<open>
  C9. In the Redis variant the listing of a user with id \<open>a\<close> is made of every key of
  the cache that starts with \<open>a\<close>. So when \<open>a\<close> is a proper prefix of another user's
  id \<open>b\<close>, every key that starts with \<open>b\<close> is listed for \<open>a\<close>; in particular, once
  \<open>b\<close> has registered a service, the listing of \<open>a\<close> holds the entry made from its key,
  which is \<^verbatim>\<open>{id: name, type: type}\<close> when neither \<open>b\<close> nor the type has an
  underscore.
\<close>

theorem prefix_listing:
  assumes "sess reqA = Some a" and "startsWith b a" and "a \<noteq> b"
  shows "get_api_redis reqA st =
           (Json (JArr (map connection (filter (\<lambda>x. startsWith x a) (client_keys st)))), st)
       \<and> (\<forall>k \<in> set (client_keys st). startsWith k b \<longrightarrow>
            connection k \<in> set (map connection (filter (\<lambda>x. startsWith x a) (client_keys st))))
       \<and> (sess reqB = Some b \<longrightarrow>
            (\<exists>cs. fst (get_api_redis reqA (snd (put_api_redis reqB st))) = Json (JArr cs)
               \<and> connection (b @ ''_'' @ body_name reqB @ ''_'' @ body_type reqB) \<in> set cs
               \<and> (CHR ''_'' \<notin> set b \<and> CHR ''_'' \<notin> set (body_type reqB) \<longrightarrow>
                    JObj [(''id'', JStr (body_name reqB)), (''type'', JStr (body_type reqB))] \<in> set cs)))"
proof (intro conjI ballI impI)
  show "get_api_redis reqA st =
           (Json (JArr (map connection (filter (\<lambda>x. startsWith x a) (client_keys st)))), st)"
    using assms(1) by (simp add: get_api_redis_def)
next
  fix k assume "k \<in> set (client_keys st)" "startsWith k b"
  with assms(2) show "connection k \<in> set (map connection (filter (\<lambda>x. startsWith x a) (client_keys st)))"
    using startsWith_trans by auto
next
  assume b: "sess reqB = Some b"
  let ?k = "b @ ''_'' @ body_name reqB @ ''_'' @ body_type reqB"
  let ?st' = "snd (put_api_redis reqB st)"
  let ?cs = "map connection (filter (\<lambda>x. startsWith x a) (client_keys ?st'))"
  have key: "?k \<in> set (client_keys ?st')"
    using put_api_redis_key [of reqB st] b by (simp add: connectionName_def)
  have "startsWith ?k b" by (rule startsWith_append)
  then have "startsWith ?k a" using assms(2) by (rule startsWith_trans)
  with key have mem: "connection ?k \<in> set ?cs" by auto
  have run: "fst (get_api_redis reqA ?st') = Json (JArr ?cs)"
    using assms(1) by (simp add: get_api_redis_def)
  have "JObj [(''id'', JStr (body_name reqB)), (''type'', JStr (body_type reqB))] \<in> set ?cs"
    if "CHR ''_'' \<notin> set b \<and> CHR ''_'' \<notin> set (body_type reqB)"
    using mem connection_of_key [of b "body_type reqB" "body_name reqB"] that by simp
  with run mem show "\<exists>cs. fst (get_api_redis reqA (snd (put_api_redis reqB st))) = Json (JArr cs)
               \<and> connection (b @ ''_'' @ body_name reqB @ ''_'' @ body_type reqB) \<in> set cs
               \<and> (CHR ''_'' \<notin> set b \<and> CHR ''_'' \<notin> set (body_type reqB) \<longrightarrow>
                    JObj [(''id'', JStr (body_name reqB)), (''type'', JStr (body_type reqB))] \<in> set cs)"
    by blast
qed

theorem prefix_listing_witness:
  "startsWith ''u12'' ''u1''
   \<and> (\<exists>cs. fst (get_api_redis (request_of GET (Some ''u1'') [] [])
               (snd (put_api_redis (request_of PUT (Some ''u12'') ''Box'' ''BoxType'') c_empty)))
            = Json (JArr cs)
          \<and> JObj [(''id'', JStr ''Box''), (''type'', JStr ''BoxType'')] \<in> set cs)"
proof -
  let ?a = "request_of GET (Some ''u1'') [] []"
  let ?b = "request_of PUT (Some ''u12'') ''Box'' ''BoxType''"
  have sa: "sess ?a = Some ''u1''" by (simp add: request_of_def)
  have sb: "sess ?b = Some ''u12''" by (simp add: request_of_def)
  have p: "startsWith ''u12'' ''u1''" by (simp add: startsWith_def)
  have ne: "''u1'' \<noteq> ''u12''" by simp
  have nb: "body_name ?b = ''Box''" by (simp add: request_of_def)
  have tb: "body_type ?b = ''BoxType''" by (simp add: request_of_def)
  have u: "CHR ''_'' \<notin> set ''u12'' \<and> CHR ''_'' \<notin> set (body_type ?b)" by (simp add: tb)
  from prefix_listing [where st = c_empty and reqB = ?b, OF sa p ne] sb u
  have "\<exists>cs. fst (get_api_redis ?a (snd (put_api_redis ?b c_empty))) = Json (JArr cs)
          \<and> JObj [(''id'', JStr (body_name ?b)), (''type'', JStr (body_type ?b))] \<in> set cs"
    by blast
  then have "\<exists>cs. fst (get_api_redis ?a (snd (put_api_redis ?b c_empty))) = Json (JArr cs)
          \<and> JObj [(''id'', JStr ''Box''), (''type'', JStr ''BoxType'')] \<in> set cs"
    by (simp only: nb tb)
  with p show ?thesis by blast
qed

subsection \<open>The \<^verbatim>\<open>PUT\<close> route of \<^verbatim>\<open>index.js\<close>\<close>

text \<open>
  C10. In \<^verbatim>\<open>index.js\<close> the \<^verbatim>\<open>PUT /api/*\<close> handler reads \<^verbatim>\<open>userId\<close>, which
  neither the handler nor the module declares: the handler is rejected with a
  \<^verbatim>\<open>ReferenceError\<close> before \<^verbatim>\<open>addService\<close> is called. Whatever the request
  and the gate's configuration, a \<^verbatim>\<open>PUT\<close> leaves the store as it was and is never
  answered with 201.
\<close>

theorem put_api_never_registers:
  "put_api req st = (Rejected ReferenceError, st)
   \<and> (api_route DISABLE_AUTH (req\<lparr>verb := PUT\<rparr>) st = (Unauthorized, st)
      \<or> api_route DISABLE_AUTH (req\<lparr>verb := PUT\<rparr>) st = (Rejected ReferenceError, st))"
  by (simp add: put_api_def resolve_def put_scope_def module_scope_def api_route_def
        split: gate.splits)

end
